theory Spec2Isabelle
  imports Main "HOL-Library.Multiset" "HOL-Library.Char_ord" "HOL-Library.List_Lexorder"
begin

section \<open>The GitHub portfolio manager (src/portfolio/github-manager.js)\<close>

text \<open>
  A shallow embedding of the class \<open>GitHubPortfolioManager\<close> and of the configuration
  object \<open>PORTFOLIO_CONFIG\<close> (src/portfolio/config.js).

  Conventions of the embedding.
  \<^item> JavaScript objects are records; a property that may be missing, \<open>null\<close> or
    \<open>undefined\<close> is an \<open>option\<close>. The JavaScript \<open>||\<close> is written out with the
    truthiness of its left operand: \<open>undefined\<close>, \<open>null\<close>, \<open>false\<close>, the number 0 and the
    empty string are falsy, every array and every object is truthy.
  \<^item> The data that arrives as JSON is read at the types that the program expects of it:
    a repository descriptor has a string as its name, and the properties \<open>name\<close>,
    \<open>description\<close> and \<open>thumbnail\<close> of a \<open>portfolio.json\<close> are strings and \<open>featured\<close> is
    a boolean, each of them possibly missing.
  \<^item> Strings are \<open>string\<close>. Repository names on GitHub are ASCII, and the case
    mappings are the ASCII ones; other code units are left as they are.
  \<^item> An \<open>async\<close> method returns its outcome as \<open>error + 'a\<close> (\<open>Inl\<close> is a rejected
    promise or a thrown exception) together with the state it leaves.
  \<^item> The state is the cache of the manager and the trace of the requests that
    \<open>githubRequest\<close> has sent, oldest first.
  \<^item> What the program takes from its surroundings is a parameter: the answer of the
    proxy behind \<open>/api/github\<close> to a request, \<open>JSON.parse\<close>,
    \<open>String.prototype.localeCompare\<close> and the value read from \<open>Date.now()\<close>.
\<close>

subsection \<open>Strings\<close>

definition toUpperCase_char :: "char \<Rightarrow> char" where
  "toUpperCase_char c =
     (let n = (of_char c :: nat) in if 97 \<le> n \<and> n \<le> 122 then char_of (n - 32) else c)"

definition toLowerCase_char :: "char \<Rightarrow> char" where
  "toLowerCase_char c =
     (let n = (of_char c :: nat) in if 65 \<le> n \<and> n \<le> 90 then char_of (n + 32) else c)"

definition toUpperCase :: "string \<Rightarrow> string" where
  "toUpperCase s = map toUpperCase_char s"

definition toLowerCase :: "string \<Rightarrow> string" where
  "toLowerCase s = map toLowerCase_char s"

definition isUpper :: "char \<Rightarrow> bool" where
  "isUpper c = (65 \<le> (of_char c :: nat) \<and> (of_char c :: nat) \<le> 90)"

text \<open>The line terminators that the regular expression atom \<open>.\<close> does not match.\<close>

definition lineTerminator :: "char \<Rightarrow> bool" where
  "lineTerminator c = ((of_char c :: nat) = 10 \<or> (of_char c :: nat) = 13)"

text \<open>
  A literal of a regular expression with the flag \<open>i\<close>, matched at the start of the
  input: two characters match when their upper-case forms are equal. The result is the
  rest of the input behind the literal.
\<close>

fun match_literal_i :: "string \<Rightarrow> string \<Rightarrow> string option" where
  "match_literal_i [] s = Some s"
| "match_literal_i (p # ps) [] = None"
| "match_literal_i (p # ps) (c # cs) =
     (if toUpperCase_char c = toUpperCase_char p then match_literal_i ps cs else None)"

text \<open>
  \<open>str.match(/^portfolio(.+)$/i)\<close>: \<open>None\<close> is \<open>null\<close>, \<open>Some [whole, group1]\<close> is the
  match array.
\<close>

definition portfolio_regex :: "string \<Rightarrow> string list option" where
  "portfolio_regex s =
     (case match_literal_i ''portfolio'' s of
        None \<Rightarrow> None
      | Some rest \<Rightarrow>
          if rest \<noteq> [] \<and> list_all (\<lambda>c. \<not> lineTerminator c) rest then Some [s, rest]
          else None)"

text \<open>\<open>match[i]\<close>: \<open>undefined\<close> outside the array.\<close>

definition group :: "string list \<Rightarrow> nat \<Rightarrow> string option" where
  "group m i = (if i < length m then Some (m ! i) else None)"

text \<open>\<open>a || b\<close> where \<open>a\<close> is a string or missing and \<open>b\<close> is a string.\<close>

definition or_else :: "string option \<Rightarrow> string \<Rightarrow> string" where
  "or_else a b = (case a of Some s \<Rightarrow> (if s \<noteq> [] then s else b) | None \<Rightarrow> b)"

subsection \<open>Data\<close>

text \<open>
  A repository descriptor of the GitHub API. The methods that fetch a file read the name
  and the default branch only, and \<open>getPortfolioContent\<close> calls them with an object that
  has just these two, so they form the base record.
\<close>

record repo_ref =
  repo_name :: string
  default_branch :: "string option"

record repo = repo_ref +
  repo_description :: "string option"
  html_url :: "string option"
  repo_homepage :: "string option"
  stargazers_count :: nat
  forks_count :: nat
  updated_at :: string
  repo_language :: "string option"
  repo_topics :: "string list option"
  is_private :: bool

text \<open>The object read from \<open>portfolio.json\<close>, by the four properties that are used.\<close>

record overlay =
  cfg_name :: "string option"
  cfg_description :: "string option"
  cfg_thumbnail :: "string option"
  cfg_featured :: "bool option"

text \<open>
  The values that \<open>githubRequest\<close> resolves to: the text of a response, or its parsed
  JSON (\<open>null\<close>, an array of repository descriptors, an object, anything else).
\<close>

datatype jsvalue = Null | Str string | Arr "repo list" | Obj overlay | Other string

datatype error = RequestError | SyntaxError | TypeError

text \<open>
  A portfolio entry. A static entry of the configuration has \<open>name\<close>, \<open>slug\<close>, \<open>path\<close>,
  \<open>description\<close> and \<open>featured\<close>; an entry built by \<open>transformToPortfolio\<close> has all the
  others. A flag that is missing reads as \<open>False\<close>.
\<close>

record portfolio =
  name :: string
  slug :: string
  path :: "string option"
  description :: string
  repoUrl :: "string option"
  homepage :: "string option"
  stars :: "nat option"
  forks :: "nat option"
  updatedAt :: "string option"
  language :: "string option"
  topics :: "string list"
  defaultBranch :: "string option"
  thumbnail :: "string option"
  isDynamic :: bool
  featured :: bool
  isPrivate :: bool

record portfolio_content = portfolio +
  readme :: jsvalue
  tree :: jsvalue

record expected_files =
  file_readme :: string
  file_config :: string
  file_thumbnail :: string

record config =
  githubOwner :: string
  repoPattern :: "string \<Rightarrow> string list option"
  staticPortfolios :: "portfolio list"
  cacheDuration :: int
  expectedFiles :: expected_files

text \<open>The body that \<open>githubRequest\<close> posts to the proxy.\<close>

record request =
  rq_endpoint :: string
  rq_owner :: string
  rq_repo :: "string option"
  rq_path :: "string option"
  rq_branch :: "string option"

record cache =
  data :: "portfolio list option"
  timestamp :: "int option"

record state =
  cache :: cache
  issued :: "request list"

record runtime =
  respond :: "request \<Rightarrow> error + jsvalue"
  JSON_parse :: "string \<Rightarrow> error + jsvalue"
  localeCompare :: "string \<Rightarrow> string \<Rightarrow> int"

subsection \<open>The configuration (src/portfolio/config.js)\<close>

definition static_entry :: "string \<Rightarrow> string \<Rightarrow> string \<Rightarrow> string \<Rightarrow> bool \<Rightarrow> portfolio" where
  "static_entry n s p d f =
     \<lparr> name = n, slug = s, path = Some p, description = d, repoUrl = None, homepage = None,
       stars = None, forks = None, updatedAt = None, language = None, topics = [],
       defaultBranch = None, thumbnail = None, isDynamic = False, featured = f,
       isPrivate = False \<rparr>"

definition PORTFOLIO_CONFIG :: config where
  "PORTFOLIO_CONFIG =
     \<lparr> githubOwner = ''Trizly-xyz'',
       repoPattern = portfolio_regex,
       staticPortfolios =
         [ static_entry ''Bloxy'' ''bloxy'' ''/portfolio/bloxy/''
             ''Roblox community management bot'' True,
           static_entry ''Mason'' ''mason'' ''/portfolio/mason/'' ''Advanced Discord bot'' True,
           static_entry ''Trizl'' ''trizl'' ''/portfolio/trizl/''
             ''Next-gen community tools'' True ],
       cacheDuration = 5 * 60 * 1000,
       expectedFiles =
         \<lparr> file_readme = ''README.md'', file_config = ''portfolio.json'',
           file_thumbnail = ''thumbnail.png'' \<rparr> \<rparr>"

definition initial_state :: state where
  "initial_state = \<lparr> cache = \<lparr> data = None, timestamp = None \<rparr>, issued = [] \<rparr>"

subsection \<open>Name extraction and filter\<close>

definition filterPortfolioRepos :: "config \<Rightarrow> repo list \<Rightarrow> repo list" where
  "filterPortfolioRepos cfg repos = filter (\<lambda>r. repoPattern cfg (repo_name r) \<noteq> None) repos"

definition extractPortfolioName :: "config \<Rightarrow> string \<Rightarrow> string" where
  "extractPortfolioName cfg repoName =
     (case repoPattern cfg repoName of
        None \<Rightarrow> repoName
      | Some m \<Rightarrow>
          (case group m 1 of
             None \<Rightarrow> repoName
           | Some g \<Rightarrow> if g \<noteq> [] then toUpperCase (take 1 g) @ drop 1 g else repoName))"

subsection \<open>Requests\<close>

text \<open>
  \<open>githubRequest(endpoint, params)\<close>: one POST to the proxy. A transport failure, a
  response that is not \<open>ok\<close> and a body that does not parse are all thrown (and thrown
  again by the \<open>catch\<close> of the method), so they are the \<open>Inl\<close> answers of \<open>respond\<close>.
\<close>

definition githubRequest ::
  "runtime \<Rightarrow> config \<Rightarrow> string \<Rightarrow> string option \<Rightarrow> string option \<Rightarrow> string option \<Rightarrow>
   state \<Rightarrow> (error + jsvalue) \<times> state" where
  "githubRequest env cfg endpoint rp pa br s =
     (let rq = \<lparr> rq_endpoint = endpoint, rq_owner = githubOwner cfg, rq_repo = rp,
                  rq_path = pa, rq_branch = br \<rparr>
      in (respond env rq, s\<lparr> issued := issued s @ [rq] \<rparr>))"

definition fetchRepositories :: "runtime \<Rightarrow> config \<Rightarrow> state \<Rightarrow> repo list \<times> state" where
  "fetchRepositories env cfg s =
     (case githubRequest env cfg ''repos'' None None None s of
        (Inr (Arr repos), s') \<Rightarrow> (repos, s')
      | (_, s') \<Rightarrow> ([], s'))"

definition fetchPortfolioConfig ::
  "runtime \<Rightarrow> config \<Rightarrow> 'a repo_ref_scheme \<Rightarrow> state \<Rightarrow> jsvalue \<times> state" where
  "fetchPortfolioConfig env cfg r s =
     (case githubRequest env cfg ''raw'' (Some (repo_name r))
             (Some (file_config (expectedFiles cfg)))
             (Some (or_else (default_branch r) ''main'')) s of
        (Inl e, s') \<Rightarrow> (Null, s')
      | (Inr (Str d), s') \<Rightarrow>
          (case JSON_parse env d of Inl e \<Rightarrow> (Null, s') | Inr v \<Rightarrow> (v, s'))
      | (Inr v, s') \<Rightarrow> (v, s'))"

definition fetchReadme ::
  "runtime \<Rightarrow> config \<Rightarrow> 'a repo_ref_scheme \<Rightarrow> state \<Rightarrow> jsvalue \<times> state" where
  "fetchReadme env cfg r s =
     (case githubRequest env cfg ''raw'' (Some (repo_name r))
             (Some (file_readme (expectedFiles cfg)))
             (Some (or_else (default_branch r) ''main'')) s of
        (Inl e, s') \<Rightarrow> (Null, s')
      | (Inr v, s') \<Rightarrow> (v, s'))"

definition fetchRepoTree ::
  "runtime \<Rightarrow> config \<Rightarrow> 'a repo_ref_scheme \<Rightarrow> state \<Rightarrow> jsvalue \<times> state" where
  "fetchRepoTree env cfg r s =
     (case githubRequest env cfg ''tree'' (Some (repo_name r)) None
             (Some (or_else (default_branch r) ''main'')) s of
        (Inl e, s') \<Rightarrow> (Null, s')
      | (Inr v, s') \<Rightarrow> (v, s'))"

subsection \<open>The transformer\<close>

text \<open>\<open>config?.name\<close> and the like: \<open>undefined\<close> unless the value is an object.\<close>

definition prop_name :: "jsvalue \<Rightarrow> string option" where
  "prop_name v = (case v of Obj ob \<Rightarrow> cfg_name ob | _ \<Rightarrow> None)"

definition prop_description :: "jsvalue \<Rightarrow> string option" where
  "prop_description v = (case v of Obj ob \<Rightarrow> cfg_description ob | _ \<Rightarrow> None)"

definition prop_thumbnail :: "jsvalue \<Rightarrow> string option" where
  "prop_thumbnail v = (case v of Obj ob \<Rightarrow> cfg_thumbnail ob | _ \<Rightarrow> None)"

definition prop_featured :: "jsvalue \<Rightarrow> bool option" where
  "prop_featured v = (case v of Obj ob \<Rightarrow> cfg_featured ob | _ \<Rightarrow> None)"

definition thumbnail_url :: "config \<Rightarrow> repo \<Rightarrow> string" where
  "thumbnail_url cfg r =
     ''https://raw.githubusercontent.com/'' @ githubOwner cfg @ ''/'' @ repo_name r @ ''/''
       @ or_else (default_branch r) ''main'' @ ''/'' @ file_thumbnail (expectedFiles cfg)"

definition build_entry :: "config \<Rightarrow> repo \<Rightarrow> string \<Rightarrow> jsvalue \<Rightarrow> portfolio" where
  "build_entry cfg r portfolioName conf =
     \<lparr> name = or_else (prop_name conf) portfolioName,
       slug = toLowerCase (repo_name r),
       path = None,
       description =
         or_else (prop_description conf)
           (or_else (repo_description r) ''No description available''),
       repoUrl = html_url r,
       homepage = repo_homepage r,
       stars = Some (stargazers_count r),
       forks = Some (forks_count r),
       updatedAt = Some (updated_at r),
       language = repo_language r,
       topics = (case repo_topics r of Some ts \<Rightarrow> ts | None \<Rightarrow> []),
       defaultBranch = Some (or_else (default_branch r) ''main''),
       thumbnail = Some (or_else (prop_thumbnail conf) (thumbnail_url cfg r)),
       isDynamic = True,
       featured = (case prop_featured conf of Some b \<Rightarrow> b | None \<Rightarrow> False),
       isPrivate = is_private r \<rparr>"

definition transformToPortfolio ::
  "runtime \<Rightarrow> config \<Rightarrow> repo \<Rightarrow> state \<Rightarrow> (error + portfolio) \<times> state" where
  "transformToPortfolio env cfg r s =
     (let portfolioName = extractPortfolioName cfg (repo_name r);
          (conf, s') = fetchPortfolioConfig env cfg r s
      in (Inr (build_entry cfg r portfolioName conf), s'))"

subsection \<open>Sorting and joining\<close>

text \<open>
  \<open>Array.prototype.sort\<close> with a comparison function: a stable sort, here by insertion.
  An element goes before the first element that it does not compare greater than.
\<close>

fun insort_cmp :: "('a \<Rightarrow> 'a \<Rightarrow> int) \<Rightarrow> 'a \<Rightarrow> 'a list \<Rightarrow> 'a list" where
  "insort_cmp c x [] = [x]"
| "insort_cmp c x (y # ys) = (if c x y \<le> 0 then x # y # ys else y # insort_cmp c x ys)"

definition array_sort :: "('a \<Rightarrow> 'a \<Rightarrow> int) \<Rightarrow> 'a list \<Rightarrow> 'a list" where
  "array_sort c xs = foldr (insort_cmp c) xs []"

text \<open>The comparison function of \<open>getAllPortfolios\<close>.\<close>

definition comparePortfolios :: "runtime \<Rightarrow> portfolio \<Rightarrow> portfolio \<Rightarrow> int" where
  "comparePortfolios env a b =
     (if featured a \<and> \<not> featured b then - 1
      else if \<not> featured a \<and> featured b then 1
      else localeCompare env (name a) (name b))"

text \<open>
  \<open>repos.map(repo => f(repo))\<close> for an \<open>async\<close> function \<open>f\<close>: every call is made, in the
  order of the array, whatever the outcome of the others.
\<close>

fun map_async ::
  "('r \<Rightarrow> state \<Rightarrow> (error + 'a) \<times> state) \<Rightarrow> 'r list \<Rightarrow> state \<Rightarrow> (error + 'a) list \<times> state" where
  "map_async f [] s = ([], s)"
| "map_async f (r # rs) s =
     (let (out, s1) = f r s; (outs, s2) = map_async f rs s1 in (out # outs, s2))"

text \<open>
  \<open>Promise.all\<close>: the array of the values when every promise is fulfilled, a rejection
  as soon as one is rejected (the model reports the first rejection of the array).
\<close>

fun promise_all :: "(error + 'a) list \<Rightarrow> error + 'a list" where
  "promise_all [] = Inr []"
| "promise_all (Inl e # outs) = Inl e"
| "promise_all (Inr v # outs) =
     (case promise_all outs of Inl e \<Rightarrow> Inl e | Inr vs \<Rightarrow> Inr (v # vs))"

subsection \<open>The aggregator and its cache\<close>

text \<open>
  The test of line 191:
  \<open>this.cache.data && this.cache.timestamp && (now - this.cache.timestamp < cacheDuration)\<close>.
  An array is truthy, a number is truthy unless it is 0.
\<close>

definition cache_hit :: "config \<Rightarrow> int \<Rightarrow> cache \<Rightarrow> portfolio list option" where
  "cache_hit cfg now c =
     (case data c of
        None \<Rightarrow> None
      | Some d \<Rightarrow>
          (case timestamp c of
             None \<Rightarrow> None
           | Some t \<Rightarrow> if t \<noteq> 0 \<and> now - t < cacheDuration cfg then Some d else None))"

text \<open>
  \<open>getAllPortfolios\<close>, with the method \<open>this.transformToPortfolio\<close> as the parameter
  \<open>tr\<close> and the value of \<open>Date.now()\<close> as \<open>now\<close>. A rejection of \<open>Promise.all\<close> is not
  caught, so it is the outcome of the call, and the cache is not written.
\<close>

definition getAllPortfolios_with ::
  "(runtime \<Rightarrow> config \<Rightarrow> repo \<Rightarrow> state \<Rightarrow> (error + portfolio) \<times> state) \<Rightarrow>
   runtime \<Rightarrow> config \<Rightarrow> int \<Rightarrow> state \<Rightarrow> (error + portfolio list) \<times> state" where
  "getAllPortfolios_with tr env cfg now s =
     (case cache_hit cfg now (cache s) of
        Some d \<Rightarrow> (Inr d, s)
      | None \<Rightarrow>
          (let (repos, s1) = fetchRepositories env cfg s;
               portfolioRepos = filterPortfolioRepos cfg repos;
               (outs, s2) = map_async (tr env cfg) portfolioRepos s1
           in case promise_all outs of
                Inl e \<Rightarrow> (Inl e, s2)
              | Inr dynamicPortfolios \<Rightarrow>
                  (let allPortfolios =
                         array_sort (comparePortfolios env)
                           (staticPortfolios cfg @ dynamicPortfolios)
                   in (Inr allPortfolios,
                       s2\<lparr> cache := \<lparr> data = Some allPortfolios, timestamp = Some now \<rparr> \<rparr>))))"

definition getAllPortfolios ::
  "runtime \<Rightarrow> config \<Rightarrow> int \<Rightarrow> state \<Rightarrow> (error + portfolio list) \<times> state" where
  "getAllPortfolios = getAllPortfolios_with transformToPortfolio"

definition getPortfolio ::
  "runtime \<Rightarrow> config \<Rightarrow> int \<Rightarrow> string \<Rightarrow> state \<Rightarrow> (error + portfolio option) \<times> state" where
  "getPortfolio env cfg now sl s =
     (case getAllPortfolios env cfg now s of
        (Inl e, s') \<Rightarrow> (Inl e, s')
      | (Inr portfolios, s') \<Rightarrow> (Inr (find (\<lambda>p. slug p = sl) portfolios), s'))"

text \<open>\<open>{...portfolio, readme, tree}\<close>\<close>

definition with_content :: "portfolio \<Rightarrow> jsvalue \<Rightarrow> jsvalue \<Rightarrow> portfolio_content" where
  "with_content p rd tr = portfolio.extend p (portfolio_content.fields rd tr)"

text \<open>
  \<open>getPortfolioContent\<close>: \<open>None\<close> is the \<open>null\<close> that it returns. The two fetches of its
  \<open>Promise.all\<close> are started in the order of the array and neither can be rejected.
\<close>

definition getPortfolioContent ::
  "runtime \<Rightarrow> config \<Rightarrow> int \<Rightarrow> string \<Rightarrow> state \<Rightarrow>
   (error + portfolio_content option) \<times> state" where
  "getPortfolioContent env cfg now sl s =
     (case getPortfolio env cfg now sl s of
        (Inl e, s1) \<Rightarrow> (Inl e, s1)
      | (Inr None, s1) \<Rightarrow> (Inr None, s1)
      | (Inr (Some p), s1) \<Rightarrow>
          if \<not> isDynamic p then (Inr None, s1)
          else
            (let r = \<lparr> repo_name = sl, default_branch = defaultBranch p \<rparr>;
                 (rd, s2) = fetchReadme env cfg r s1;
                 (tr, s3) = fetchRepoTree env cfg r s2
             in (Inr (Some (with_content p rd tr)), s3)))"

section \<open>What a call is observed to do\<close>

text \<open>The requests that the methods send, and the values that they read from the answers.\<close>

definition repos_request :: "config \<Rightarrow> request" where
  "repos_request cfg =
     \<lparr> rq_endpoint = ''repos'', rq_owner = githubOwner cfg, rq_repo = None, rq_path = None,
       rq_branch = None \<rparr>"

definition raw_request :: "config \<Rightarrow> string \<Rightarrow> string \<Rightarrow> string \<Rightarrow> request" where
  "raw_request cfg rp pa br =
     \<lparr> rq_endpoint = ''raw'', rq_owner = githubOwner cfg, rq_repo = Some rp, rq_path = Some pa,
       rq_branch = Some br \<rparr>"

definition tree_request :: "config \<Rightarrow> string \<Rightarrow> string \<Rightarrow> request" where
  "tree_request cfg rp br =
     \<lparr> rq_endpoint = ''tree'', rq_owner = githubOwner cfg, rq_repo = Some rp, rq_path = None,
       rq_branch = Some br \<rparr>"

definition branch_of :: "string option \<Rightarrow> string" where
  "branch_of b = (case b of None \<Rightarrow> ''main'' | Some x \<Rightarrow> if x = [] then ''main'' else x)"

definition config_request :: "config \<Rightarrow> repo \<Rightarrow> request" where
  "config_request cfg r =
     raw_request cfg (repo_name r) (file_config (expectedFiles cfg)) (branch_of (default_branch r))"

text \<open>The repository list that a refresh works with.\<close>

definition listed_repos :: "runtime \<Rightarrow> config \<Rightarrow> repo list" where
  "listed_repos env cfg =
     (case respond env (repos_request cfg) of Inr (Arr repos) \<Rightarrow> repos | _ \<Rightarrow> [])"

text \<open>The value that \<open>fetchPortfolioConfig\<close> returns for a repository.\<close>

definition config_of :: "runtime \<Rightarrow> config \<Rightarrow> repo \<Rightarrow> jsvalue" where
  "config_of env cfg r =
     (case respond env (config_request cfg r) of
        Inl e \<Rightarrow> Null
      | Inr (Str d) \<Rightarrow> (case JSON_parse env d of Inl e \<Rightarrow> Null | Inr v \<Rightarrow> v)
      | Inr v \<Rightarrow> v)"

text \<open>The entry that \<open>transformToPortfolio\<close> builds for a repository.\<close>

definition entry_of :: "runtime \<Rightarrow> config \<Rightarrow> repo \<Rightarrow> portfolio" where
  "entry_of env cfg r =
     build_entry cfg r (extractPortfolioName cfg (repo_name r)) (config_of env cfg r)"

text \<open>The state after some more requests have been sent.\<close>

definition sent :: "request list \<Rightarrow> state \<Rightarrow> state" where
  "sent rqs s = s\<lparr> issued := issued s @ rqs \<rparr>"

text \<open>The sequence that a refresh computes, and the requests that it sends.\<close>

definition fresh :: "runtime \<Rightarrow> config \<Rightarrow> portfolio list" where
  "fresh env cfg =
     array_sort (comparePortfolios env)
       (staticPortfolios cfg
          @ map (entry_of env cfg) (filterPortfolioRepos cfg (listed_repos env cfg)))"

definition refresh_requests :: "runtime \<Rightarrow> config \<Rightarrow> request list" where
  "refresh_requests env cfg =
     repos_request cfg
       # map (config_request cfg) (filterPortfolioRepos cfg (listed_repos env cfg))"


text \<open>
  The two requests of \<open>getPortfolioContent\<close> for the slug \<open>sl\<close> that resolved to the entry
  \<open>p\<close>, and the value that a fetch method makes of an answer.
\<close>

definition readme_request :: "config \<Rightarrow> string \<Rightarrow> portfolio \<Rightarrow> request" where
  "readme_request cfg sl p =
     raw_request cfg sl (file_readme (expectedFiles cfg)) (branch_of (defaultBranch p))"

definition content_tree_request :: "config \<Rightarrow> string \<Rightarrow> portfolio \<Rightarrow> request" where
  "content_tree_request cfg sl p = tree_request cfg sl (branch_of (defaultBranch p))"

definition value_or_null :: "error + jsvalue \<Rightarrow> jsvalue" where
  "value_or_null a = (case a of Inl e \<Rightarrow> Null | Inr v \<Rightarrow> v)"

text \<open>The fetch of the per-repository configuration fails, or its text does not parse.\<close>

definition config_fails :: "runtime \<Rightarrow> config \<Rightarrow> repo \<Rightarrow> bool" where
  "config_fails env cfg r =
     (case respond env (config_request cfg r) of
        Inl e \<Rightarrow> True
      | Inr (Str d) \<Rightarrow> (case JSON_parse env d of Inl e \<Rightarrow> True | Inr v \<Rightarrow> False)
      | Inr v \<Rightarrow> False)"

text \<open>The number of repository-list requests sent so far.\<close>

definition list_fetches :: "state \<Rightarrow> nat" where
  "list_fetches s = length (filter (\<lambda>rq. rq_endpoint rq = ''repos'') (issued s))"

text \<open>
  The pattern in the words of the specification: the literal prefix \<open>portfolio\<close> in any
  case, followed by a capture of one or more characters up to the end of the name.
\<close>

definition spec_pattern_capture :: "string \<Rightarrow> string option" where
  "spec_pattern_capture n =
     (let p = take 9 n; rest = drop 9 n
      in if toLowerCase p = ''portfolio'' \<and> rest \<noteq> [] \<and> list_all (\<lambda>c. \<not> lineTerminator c) rest
         then Some rest else None)"

text \<open>
  What is asked of \<open>localeCompare\<close>: it is a total preorder on strings, any two strings are
  comparable and the comparison is transitive.
\<close>

definition consistent_compare :: "('a \<Rightarrow> 'a \<Rightarrow> int) \<Rightarrow> bool" where
  "consistent_compare c =
     ((\<forall>a b. c a b \<le> 0 \<or> c b a \<le> 0) \<and> (\<forall>a b d. c a b \<le> 0 \<and> c b d \<le> 0 \<longrightarrow> c a d \<le> 0))"

section \<open>Sample surroundings\<close>

text \<open>A comparison of strings by code units, in the place of \<open>localeCompare\<close>.\<close>

definition codeUnitCompare :: "string \<Rightarrow> string \<Rightarrow> int" where
  "codeUnitCompare a b = (if a < b then - 1 else if b < a then 1 else 0)"

definition sample_repo :: "string \<Rightarrow> repo" where
  "sample_repo n =
     \<lparr> repo_name = n, default_branch = Some ''main'', repo_description = None,
       html_url = Some (''https://github.com/Trizly-xyz/'' @ n), repo_homepage = None,
       stargazers_count = 0, forks_count = 0, updated_at = ''2024-01-01T00:00:00Z'',
       repo_language = None, repo_topics = None, is_private = False \<rparr>"

text \<open>A proxy that is down: every request fails.\<close>

definition offline :: runtime where
  "offline =
     \<lparr> respond = (\<lambda>rq. Inl RequestError), JSON_parse = (\<lambda>d. Inl SyntaxError),
       localeCompare = codeUnitCompare \<rparr>"

text \<open>
  An account with the repositories \<open>portfolioApple\<close>, \<open>random-repo\<close> and \<open>portfolioBear\<close>;
  only \<open>portfolioBear\<close> has a \<open>portfolio.json\<close>, which marks it as featured.
\<close>

definition account :: runtime where
  "account =
     \<lparr> respond =
         (\<lambda>rq. if rq_endpoint rq = ''repos''
               then Inr (Arr [sample_repo ''portfolioApple'', sample_repo ''random-repo'',
                              sample_repo ''portfolioBear''])
               else if rq_endpoint rq = ''raw'' \<and> rq_repo rq = Some ''portfolioBear''
                       \<and> rq_path rq = Some ''portfolio.json''
               then Inr (Obj \<lparr> cfg_name = None, cfg_description = None, cfg_thumbnail = None,
                               cfg_featured = Some True \<rparr>)
               else Inl RequestError),
       JSON_parse = (\<lambda>d. Inl SyntaxError),
       localeCompare = codeUnitCompare \<rparr>"

text \<open>The configuration of the example in the specification: one static entry.\<close>

definition trizl_only :: config where
  "trizl_only =
     PORTFOLIO_CONFIG
       \<lparr> staticPortfolios :=
           [static_entry ''Trizl'' ''trizl'' ''/portfolio/trizl/'' ''Next-gen community tools'' True] \<rparr>"


section \<open>Properties\<close>

subsection \<open>The extractor\<close>

lemma of_char_toUpper:
  "(of_char (toUpperCase_char c) :: nat) =
     (if 97 \<le> (of_char c :: nat) \<and> (of_char c :: nat) \<le> 122 then of_char c - 32 else of_char c)"
  by (auto simp add: toUpperCase_char_def Let_def)

lemma of_char_toLower:
  "(of_char (toLowerCase_char c) :: nat) =
     (if 65 \<le> (of_char c :: nat) \<and> (of_char c :: nat) \<le> 90 then of_char c + 32 else of_char c)"
  by (auto simp add: toLowerCase_char_def Let_def)

lemma upper_eq_lower:
  assumes "97 \<le> (of_char p :: nat)" "(of_char p :: nat) \<le> 122"
  shows "toUpperCase_char c = toUpperCase_char p \<longleftrightarrow> toLowerCase_char c = p"
proof -
  define n m where "n = (of_char c :: nat)" and "m = (of_char p :: nat)"
  have u: "toUpperCase_char c = toUpperCase_char p \<longleftrightarrow>
        (if 97 \<le> n \<and> n \<le> 122 then n - 32 else n) = (if 97 \<le> m \<and> m \<le> 122 then m - 32 else m)"
    unfolding n_def m_def of_char_toUpper [symmetric] by simp
  have l: "toLowerCase_char c = p \<longleftrightarrow> (if 65 \<le> n \<and> n \<le> 90 then n + 32 else n) = m"
    unfolding n_def m_def of_char_toLower [symmetric] by simp
  from assms have "97 \<le> m" "m \<le> 122" by (simp_all add: m_def)
  then show ?thesis
    unfolding u l by (auto split: if_splits)
qed

lemma match_literal_lower:
  assumes "\<forall>p \<in> set lit. 97 \<le> (of_char p :: nat) \<and> (of_char p :: nat) \<le> 122"
  shows "match_literal_i lit s =
     (if length lit \<le> length s \<and> toLowerCase (take (length lit) s) = lit
      then Some (drop (length lit) s) else None)"
  using assms
proof (induction lit s rule: match_literal_i.induct)
  case (1 s)
  then show ?case by (simp add: toLowerCase_def)
next
  case (2 p ps)
  then show ?case by simp
next
  case (3 p ps c cs)
  then show ?case by (simp add: toLowerCase_def upper_eq_lower)
qed

lemma match_portfolio:
  "match_literal_i ''portfolio'' n =
     (if toLowerCase (take 9 n) = ''portfolio'' then Some (drop 9 n) else None)"
proof -
  have len: "length ''portfolio'' = 9" by simp
  have "\<forall>p \<in> set ''portfolio''. 97 \<le> (of_char p :: nat) \<and> (of_char p :: nat) \<le> 122"
    by simp
  from match_literal_lower [OF this, of n]
  have m: "match_literal_i ''portfolio'' n =
     (if 9 \<le> length n \<and> toLowerCase (take 9 n) = ''portfolio'' then Some (drop 9 n) else None)"
    unfolding len .
  have "9 \<le> length n" if "toLowerCase (take 9 n) = ''portfolio''"
  proof -
    from that have "length (toLowerCase (take 9 n)) = length ''portfolio''" by simp
    then show ?thesis unfolding len by (simp add: toLowerCase_def)
  qed
  with m show ?thesis by presburger
qed

lemma portfolio_regex_capture:
  "portfolio_regex n =
     (case spec_pattern_capture n of None \<Rightarrow> None | Some rest \<Rightarrow> Some [n, rest])"
  unfolding portfolio_regex_def spec_pattern_capture_def Let_def match_portfolio by simp

lemma extract_by_capture:
  "extractPortfolioName PORTFOLIO_CONFIG n =
     (case spec_pattern_capture n of
        None \<Rightarrow> n
      | Some captured \<Rightarrow> toUpperCase_char (hd captured) # tl captured)"
proof (cases "spec_pattern_capture n")
  case None
  then show ?thesis
    by (simp add: extractPortfolioName_def PORTFOLIO_CONFIG_def portfolio_regex_capture)
next
  case (Some captured)
  then have "captured \<noteq> []"
    by (auto simp add: spec_pattern_capture_def Let_def split: if_splits)
  then obtain c cs where "captured = c # cs" by (cases captured) auto
  with Some show ?thesis
    by (simp add: extractPortfolioName_def PORTFOLIO_CONFIG_def portfolio_regex_capture
        group_def toUpperCase_def)
qed

text \<open>
  C7. \<open>extractPortfolioName\<close> is a function of the repository name alone. When the name
  matches the pattern (the prefix \<open>portfolio\<close> in any case, then a capture of at least one
  character), the result is the capture with its first character in upper case; when it
  does not match, the result is the name as it was given. So \<open>portfolioBloxy\<close> gives
  \<open>Bloxy\<close> and \<open>random-repo\<close> gives \<open>random-repo\<close>.
\<close>

theorem extractPortfolioName_pattern:
  "extractPortfolioName PORTFOLIO_CONFIG n =
     (case spec_pattern_capture n of
        None \<Rightarrow> n
      | Some captured \<Rightarrow> toUpperCase_char (hd captured) # tl captured)
   \<and> extractPortfolioName PORTFOLIO_CONFIG ''portfolioBloxy'' = ''Bloxy''
   \<and> extractPortfolioName PORTFOLIO_CONFIG ''random-repo'' = ''random-repo''"
proof (intro conjI)
  show "extractPortfolioName PORTFOLIO_CONFIG n =
     (case spec_pattern_capture n of
        None \<Rightarrow> n
      | Some captured \<Rightarrow> toUpperCase_char (hd captured) # tl captured)"
    by (rule extract_by_capture)
  show "extractPortfolioName PORTFOLIO_CONFIG ''portfolioBloxy'' = ''Bloxy''"
    by code_simp
  show "extractPortfolioName PORTFOLIO_CONFIG ''random-repo'' = ''random-repo''"
    by code_simp
qed

subsection \<open>Requests and the transformer\<close>

lemma or_else_branch: "or_else b ''main'' = branch_of b"
  by (simp add: or_else_def branch_of_def split: option.splits)

lemma sent_simps [simp]:
  "cache (sent rqs s) = cache s" "issued (sent rqs s) = issued s @ rqs"
  "sent rqs' (sent rqs s) = sent (rqs @ rqs') s"
  by (simp_all add: sent_def)

lemma githubRequest_repos:
  "githubRequest env cfg ''repos'' None None None s =
     (respond env (repos_request cfg), sent [repos_request cfg] s)"
  by (simp add: githubRequest_def repos_request_def sent_def Let_def)

lemma githubRequest_raw:
  "githubRequest env cfg ''raw'' (Some rp) (Some pa) (Some br) s =
     (respond env (raw_request cfg rp pa br), sent [raw_request cfg rp pa br] s)"
  by (simp add: githubRequest_def raw_request_def sent_def Let_def)

lemma githubRequest_tree:
  "githubRequest env cfg ''tree'' (Some rp) None (Some br) s =
     (respond env (tree_request cfg rp br), sent [tree_request cfg rp br] s)"
  by (simp add: githubRequest_def tree_request_def sent_def Let_def)

lemma fetchRepositories_eq:
  "fetchRepositories env cfg s = (listed_repos env cfg, sent [repos_request cfg] s)"
  by (simp add: fetchRepositories_def githubRequest_repos listed_repos_def
      split: sum.splits jsvalue.splits)

lemma fetchPortfolioConfig_eq:
  "fetchPortfolioConfig env cfg r s = (config_of env cfg r, sent [config_request cfg r] s)"
  by (simp add: fetchPortfolioConfig_def githubRequest_raw config_of_def config_request_def
      or_else_branch split: sum.splits jsvalue.splits)

lemma transformToPortfolio_eq:
  "transformToPortfolio env cfg r s = (Inr (entry_of env cfg r), sent [config_request cfg r] s)"
  by (simp add: transformToPortfolio_def fetchPortfolioConfig_eq entry_of_def)

lemma map_async_transform:
  "map_async (transformToPortfolio env cfg) rs s =
     (map (\<lambda>r. Inr (entry_of env cfg r)) rs, sent (map (config_request cfg) rs) s)"
proof (induction rs arbitrary: s)
  case Nil
  then show ?case by (simp add: sent_def)
next
  case (Cons r rs)
  then show ?case by (simp add: transformToPortfolio_eq)
qed

lemma promise_all_fulfilled: "promise_all (map (\<lambda>r. Inr (f r)) rs) = Inr (map f rs)"
  by (induction rs) simp_all

lemma promise_all_rejected: "Inl e \<in> set outs \<Longrightarrow> \<exists>e'. promise_all outs = Inl e'"
proof (induction outs rule: promise_all.induct)
  case 1
  then show ?case by simp
next
  case (2 e outs)
  then show ?case by simp
next
  case (3 v outs)
  then show ?case by (auto split: sum.splits)
qed

lemma getAllPortfolios_miss:
  assumes "cache_hit cfg now (cache s) = None"
  shows "getAllPortfolios env cfg now s =
     (Inr (fresh env cfg),
      (sent (refresh_requests env cfg) s)
        \<lparr> cache := \<lparr> data = Some (fresh env cfg), timestamp = Some now \<rparr> \<rparr>)"
  using assms
  by (simp add: getAllPortfolios_def getAllPortfolios_with_def fetchRepositories_eq
      map_async_transform promise_all_fulfilled fresh_def refresh_requests_def Let_def)

lemma getAllPortfolios_hit:
  assumes "cache_hit cfg now (cache s) = Some d"
  shows "getAllPortfolios env cfg now s = (Inr d, s)"
  using assms by (simp add: getAllPortfolios_def getAllPortfolios_with_def)


lemma mset_insort_cmp: "mset (insort_cmp c x xs) = add_mset x (mset xs)"
  by (induction xs) simp_all

lemma mset_array_sort: "mset (array_sort c xs) = mset xs"
  by (induction xs) (simp_all add: array_sort_def mset_insort_cmp)

lemma set_array_sort: "set (array_sort c xs) = set xs"
  using mset_array_sort [of c xs] by (metis set_mset_mset)

lemma set_insort_cmp: "set (insort_cmp c x xs) = insert x (set xs)"
  using mset_insort_cmp [of c x xs] by (metis set_mset_mset set_mset_add_mset_insert)

lemma sorted_insort_cmp:
  assumes "consistent_compare c" and "sorted_wrt (\<lambda>a b. c a b \<le> 0) xs"
  shows "sorted_wrt (\<lambda>a b. c a b \<le> 0) (insort_cmp c x xs)"
  using assms(2)
proof (induction xs)
  case Nil
  then show ?case by simp
next
  case (Cons y ys)
  from assms(1) have total: "\<And>a b. c a b \<le> 0 \<or> c b a \<le> 0"
    and trans: "\<And>a b d. c a b \<le> 0 \<Longrightarrow> c b d \<le> 0 \<Longrightarrow> c a d \<le> 0"
    unfolding consistent_compare_def by blast+
  show ?case
  proof (cases "c x y \<le> 0")
    case True
    with Cons.prems trans show ?thesis by auto
  next
    case False
    with total have "c y x \<le> 0" by blast
    with False Cons show ?thesis by (auto simp add: set_insort_cmp)
  qed
qed

lemma sorted_array_sort:
  assumes "consistent_compare c"
  shows "sorted_wrt (\<lambda>a b. c a b \<le> 0) (array_sort c xs)"
proof (induction xs)
  case Nil
  then show ?case by (simp add: array_sort_def)
next
  case (Cons x xs)
  then show ?case
    using sorted_insort_cmp [OF assms] by (simp add: array_sort_def)
qed

lemma consistent_comparePortfolios:
  assumes "consistent_compare (localeCompare env)"
  shows "consistent_compare (comparePortfolios env)"
proof -
  from assms have total: "\<And>a b. localeCompare env a b \<le> 0 \<or> localeCompare env b a \<le> 0"
    and trans: "\<And>a b d. localeCompare env a b \<le> 0 \<Longrightarrow> localeCompare env b d \<le> 0
        \<Longrightarrow> localeCompare env a d \<le> 0"
    unfolding consistent_compare_def by blast+
  have "comparePortfolios env a b \<le> 0 \<or> comparePortfolios env b a \<le> 0" for a b
    using total [of "name a" "name b"] by (simp add: comparePortfolios_def)
  moreover have "comparePortfolios env a d \<le> 0"
    if "comparePortfolios env a b \<le> 0" "comparePortfolios env b d \<le> 0" for a b d
    using that trans [of "name a" "name b" "name d"]
    by (auto simp add: comparePortfolios_def split: if_splits)
  ultimately show ?thesis unfolding consistent_compare_def by blast
qed

lemma comparePortfolios_le:
  "comparePortfolios env a b \<le> 0 \<longleftrightarrow>
     (featured b \<longrightarrow> featured a) \<and>
     (featured a = featured b \<longrightarrow> localeCompare env (name a) (name b) \<le> 0)"
  by (auto simp add: comparePortfolios_def)

lemma consistent_codeUnitCompare: "consistent_compare codeUnitCompare"
  unfolding consistent_compare_def codeUnitCompare_def by auto

lemma config_request_endpoint: "rq_endpoint (config_request cfg r) = ''raw''"
  by (simp add: config_request_def raw_request_def)

lemma refresh_requests_repos:
  "length (filter (\<lambda>rq. rq_endpoint rq = ''repos'') (refresh_requests env cfg)) = 1"
  by (simp add: refresh_requests_def repos_request_def config_request_endpoint filter_map o_def)

subsection \<open>The cache\<close>

text \<open>
  C2. When the cache is populated with timestamp \<open>t\<close> and \<open>getAllPortfolios\<close> is called
  at a time \<open>now\<close> with \<open>now - t \<ge> cacheDuration\<close>, the call sends exactly one new
  repository-list request, returns the sequence computed from the present answers of the
  provider, and leaves a cache record that holds this sequence and the timestamp \<open>now\<close>.
\<close>

theorem refresh_after_expiry:
  assumes "cache s = \<lparr> data = Some d, timestamp = Some t \<rparr>" and "cacheDuration cfg \<le> now - t"
  shows "\<exists>xs s'. getAllPortfolios env cfg now s = (Inr xs, s')
           \<and> xs = fresh env cfg
           \<and> list_fetches s' = list_fetches s + 1
           \<and> cache s' = \<lparr> data = Some xs, timestamp = Some now \<rparr>"
proof -
  from assms have "cache_hit cfg now (cache s) = None"
    by (simp add: cache_hit_def)
  from getAllPortfolios_miss [OF this, of env] show ?thesis
    by (simp add: refresh_requests_repos list_fetches_def)
qed

theorem refresh_after_expiry_witness:
  "cacheDuration trizl_only \<le> 301000 - 1000 \<and>
   (\<exists>xs s'. getAllPortfolios account trizl_only 301000
               \<lparr> cache = \<lparr> data = Some [], timestamp = Some 1000 \<rparr>, issued = [] \<rparr> = (Inr xs, s')
           \<and> xs = fresh account trizl_only
           \<and> list_fetches s' = 1
           \<and> cache s' = \<lparr> data = Some xs, timestamp = Some 301000 \<rparr>)"
proof -
  have d: "cacheDuration trizl_only \<le> 301000 - 1000"
    by (simp add: trizl_only_def PORTFOLIO_CONFIG_def)
  have c: "cache \<lparr> cache = \<lparr> data = Some [], timestamp = Some 1000 \<rparr>, issued = [] \<rparr>
             = \<lparr> data = Some [], timestamp = Some 1000 \<rparr>"
    by simp
  from refresh_after_expiry [OF c d, of account] d show ?thesis
    by (simp add: list_fetches_def)
qed

lemma cached_within_ttl:
  assumes "cache s = \<lparr> data = Some d, timestamp = Some t \<rparr>" and "t \<noteq> 0"
    and "now - t < cacheDuration cfg"
  shows "getAllPortfolios env cfg now s = (Inr d, s)"
  using assms by (simp add: getAllPortfolios_hit cache_hit_def)

text \<open>
  C1. A second call within the window is to return the cached sequence without a request.
  The test of line 191 reads the timestamp as a truth value, so a cache that was populated
  when \<open>Date.now()\<close> was 0 is never used: with the proxy down and the configuration of
  config.js, the first call at time 0 populates the cache with timestamp 0 and sends one
  repository-list request, and a second call at time 1, well inside the window of
  300000 ms, sends a second one.
\<close>

theorem refetch_when_timestamp_zero:
  "timestamp (cache (snd (getAllPortfolios offline PORTFOLIO_CONFIG 0 initial_state))) = Some 0
   \<and> data (cache (snd (getAllPortfolios offline PORTFOLIO_CONFIG 0 initial_state))) \<noteq> None
   \<and> list_fetches (snd (getAllPortfolios offline PORTFOLIO_CONFIG 0 initial_state)) = 1
   \<and> 1 - 0 < cacheDuration PORTFOLIO_CONFIG
   \<and> list_fetches (snd (getAllPortfolios offline PORTFOLIO_CONFIG 1
        (snd (getAllPortfolios offline PORTFOLIO_CONFIG 0 initial_state)))) = 2"
  by code_simp

subsection \<open>Merge and sort\<close>

lemma entry_of_localeCompare [simp]:
  "entry_of (env\<lparr> localeCompare := lc \<rparr>) cfg r = entry_of env cfg r"
  by (simp add: entry_of_def config_of_def split: sum.splits jsvalue.splits)

lemma listed_repos_localeCompare [simp]:
  "listed_repos (env\<lparr> localeCompare := lc \<rparr>) cfg = listed_repos env cfg"
  by (simp add: listed_repos_def)

lemma refresh_sorted:
  assumes "consistent_compare (localeCompare env)" and "cache_hit cfg now (cache s) = None"
  shows "\<exists>xs. fst (getAllPortfolios env cfg now s) = Inr xs
      \<and> mset xs = mset (staticPortfolios cfg
            @ map (entry_of env cfg) (filterPortfolioRepos cfg (listed_repos env cfg)))
      \<and> (\<forall>i j. i < j \<and> j < length xs \<longrightarrow>
            (featured (xs ! j) \<longrightarrow> featured (xs ! i)) \<and>
            (featured (xs ! i) = featured (xs ! j) \<longrightarrow>
               localeCompare env (name (xs ! i)) (name (xs ! j)) \<le> 0))"
proof -
  have r: "fst (getAllPortfolios env cfg now s) = Inr (fresh env cfg)"
    by (simp add: getAllPortfolios_miss [OF assms(2)])
  have m: "mset (fresh env cfg) = mset (staticPortfolios cfg
            @ map (entry_of env cfg) (filterPortfolioRepos cfg (listed_repos env cfg)))"
    unfolding fresh_def by (rule mset_array_sort)
  have "sorted_wrt (\<lambda>a b. comparePortfolios env a b \<le> 0) (fresh env cfg)"
    unfolding fresh_def
    by (rule sorted_array_sort [OF consistent_comparePortfolios [OF assms(1)]])
  then have o: "\<forall>i j. i < j \<and> j < length (fresh env cfg) \<longrightarrow>
      comparePortfolios env (fresh env cfg ! i) (fresh env cfg ! j) \<le> 0"
    by (simp add: sorted_wrt_iff_nth_less)
  from r m o show ?thesis
    unfolding comparePortfolios_le by blast
qed

lemma example_order:
  assumes "0 < lc ''Trizl'' ''Bear''"
  shows "map_sum id (map name)
      (fst (getAllPortfolios (account\<lparr> localeCompare := lc \<rparr>) trizl_only now initial_state))
    = Inr [''Bear'', ''Trizl'', ''Apple'']"
proof -
  let ?env = "account\<lparr> localeCompare := lc \<rparr>"
  let ?apple = "entry_of account trizl_only (sample_repo ''portfolioApple'')"
  let ?bear = "entry_of account trizl_only (sample_repo ''portfolioBear'')"
  let ?trizl =
    "static_entry ''Trizl'' ''trizl'' ''/portfolio/trizl/'' ''Next-gen community tools'' True"
  have miss: "cache_hit trizl_only now (cache initial_state) = None"
    by (simp add: cache_hit_def initial_state_def)
  have f: "filterPortfolioRepos trizl_only (listed_repos account trizl_only)
      = [sample_repo ''portfolioApple'', sample_repo ''portfolioBear'']"
    by code_simp
  have st: "staticPortfolios trizl_only = [?trizl]"
    by (simp add: trizl_only_def)
  have a: "name ?apple = ''Apple''" "\<not> featured ?apple" "name ?bear = ''Bear''" "featured ?bear"
    by code_simp+
  have t: "name ?trizl = ''Trizl''" "featured ?trizl"
    by (simp_all add: static_entry_def)
  have "fresh ?env trizl_only = [?bear, ?trizl, ?apple]"
    using assms by (simp add: fresh_def f st array_sort_def comparePortfolios_def a t)
  then show ?thesis
    by (simp add: getAllPortfolios_miss [OF miss] a t)
qed

text \<open>
  C3. A refresh returns the static entries and the dynamic entries, merged and sorted:
  the result is a rearrangement of the merged list in which every featured entry comes
  before every entry that is not featured, and entries of equal featuredness are in
  ascending order of their names under \<open>localeCompare\<close> (taken to be a total preorder).
  In the example, the static entry \<open>Trizl\<close> (featured) and the dynamic entries \<open>Apple\<close>
  (not featured) and \<open>Bear\<close> (featured) come out as \<open>Bear\<close>, \<open>Trizl\<close>, \<open>Apple\<close>, for every
  \<open>localeCompare\<close> that puts \<open>Bear\<close> before \<open>Trizl\<close>.
\<close>

theorem sorted_featured_then_name:
  "(consistent_compare (localeCompare env) \<and> cache_hit cfg now (cache s) = None \<longrightarrow>
     (\<exists>xs. fst (getAllPortfolios env cfg now s) = Inr xs
        \<and> mset xs = mset (staticPortfolios cfg
              @ map (entry_of env cfg) (filterPortfolioRepos cfg (listed_repos env cfg)))
        \<and> (\<forall>i j. i < j \<and> j < length xs \<longrightarrow>
              (featured (xs ! j) \<longrightarrow> featured (xs ! i)) \<and>
              (featured (xs ! i) = featured (xs ! j) \<longrightarrow>
                 localeCompare env (name (xs ! i)) (name (xs ! j)) \<le> 0))))
   \<and> (0 < lc ''Trizl'' ''Bear'' \<longrightarrow>
        map_sum id (map name)
          (fst (getAllPortfolios (account\<lparr> localeCompare := lc \<rparr>) trizl_only now'
                  initial_state))
        = Inr [''Bear'', ''Trizl'', ''Apple''])"
  using refresh_sorted [of env cfg now s] example_order [of lc now'] by blast

theorem sorted_featured_then_name_witness:
  "consistent_compare (localeCompare account)
   \<and> cache_hit trizl_only 1000 (cache initial_state) = None
   \<and> 0 < codeUnitCompare ''Trizl'' ''Bear''
   \<and> (\<exists>xs. fst (getAllPortfolios account trizl_only 1000 initial_state) = Inr xs
        \<and> mset xs = mset (staticPortfolios trizl_only
              @ map (entry_of account trizl_only)
                  (filterPortfolioRepos trizl_only (listed_repos account trizl_only)))
        \<and> (\<forall>i j. i < j \<and> j < length xs \<longrightarrow>
              (featured (xs ! j) \<longrightarrow> featured (xs ! i)) \<and>
              (featured (xs ! i) = featured (xs ! j) \<longrightarrow>
                 localeCompare account (name (xs ! i)) (name (xs ! j)) \<le> 0)))
   \<and> map_sum id (map name)
        (fst (getAllPortfolios (account\<lparr> localeCompare := codeUnitCompare \<rparr>) trizl_only 1000
                initial_state))
      = Inr [''Bear'', ''Trizl'', ''Apple'']"
proof -
  have h1: "consistent_compare (localeCompare account)"
    by (simp add: account_def consistent_codeUnitCompare)
  have h2: "cache_hit trizl_only 1000 (cache initial_state) = None"
    by (simp add: cache_hit_def initial_state_def)
  have h3: "0 < codeUnitCompare ''Trizl'' ''Bear''"
    by code_simp
  from sorted_featured_then_name [of account trizl_only 1000 initial_state codeUnitCompare 1000]
    h1 h2 h3
  show ?thesis by blast
qed

subsection \<open>A failing repository list\<close>

text \<open>
  C6. In a refresh in which the repository-list request fails, or is answered by
  something that is not a list, \<open>getAllPortfolios\<close> does not fail: it returns the static
  entries (sorted, none added and none lost) and stores this sequence in the cache.
\<close>

theorem static_only_on_list_failure:
  assumes "cache_hit cfg now (cache s) = None"
    and "\<forall>repos. respond env (repos_request cfg) \<noteq> Inr (Arr repos)"
  shows "\<exists>xs s'. getAllPortfolios env cfg now s = (Inr xs, s')
      \<and> xs = array_sort (comparePortfolios env) (staticPortfolios cfg)
      \<and> mset xs = mset (staticPortfolios cfg)
      \<and> cache s' = \<lparr> data = Some xs, timestamp = Some now \<rparr>"
proof -
  from assms(2) have "listed_repos env cfg = []"
    by (auto simp add: listed_repos_def split: sum.splits jsvalue.splits)
  then have "fresh env cfg = array_sort (comparePortfolios env) (staticPortfolios cfg)"
    by (simp add: fresh_def filterPortfolioRepos_def)
  with getAllPortfolios_miss [OF assms(1), of env] show ?thesis
    by (simp add: mset_array_sort)
qed

theorem static_only_on_list_failure_witness:
  "cache_hit PORTFOLIO_CONFIG 1000 (cache initial_state) = None
   \<and> (\<forall>repos. respond offline (repos_request PORTFOLIO_CONFIG) \<noteq> Inr (Arr repos))
   \<and> (\<exists>xs s'. getAllPortfolios offline PORTFOLIO_CONFIG 1000 initial_state = (Inr xs, s')
      \<and> xs = array_sort (comparePortfolios offline) (staticPortfolios PORTFOLIO_CONFIG)
      \<and> mset xs = mset (staticPortfolios PORTFOLIO_CONFIG)
      \<and> cache s' = \<lparr> data = Some xs, timestamp = Some 1000 \<rparr>)"
proof -
  have h1: "cache_hit PORTFOLIO_CONFIG 1000 (cache initial_state) = None"
    by (simp add: cache_hit_def initial_state_def)
  have h2: "\<forall>repos. respond offline (repos_request PORTFOLIO_CONFIG) \<noteq> Inr (Arr repos)"
    by (simp add: offline_def)
  from static_only_on_list_failure [OF h1 h2] h1 h2 show ?thesis by blast
qed

subsection \<open>The transformer degrades to defaults\<close>

lemma config_of_fails: "config_fails env cfg r \<Longrightarrow> config_of env cfg r = Null"
  by (auto simp add: config_fails_def config_of_def split: sum.splits jsvalue.splits)

lemma getAllPortfolios_total: "\<exists>xs s'. getAllPortfolios env cfg now s = (Inr xs, s')"
proof (cases "cache_hit cfg now (cache s)")
  case None
  then show ?thesis by (simp add: getAllPortfolios_miss)
next
  case (Some d)
  then show ?thesis by (simp add: getAllPortfolios_hit)
qed

text \<open>
  C4. When the fetch of \<open>portfolio.json\<close> fails, or its text does not parse,
  \<open>transformToPortfolio\<close> still returns an entry and raises nothing. The entry has the
  name given by \<open>extractPortfolioName\<close>, the repository name in lower case as its slug, the
  description of the descriptor or else the placeholder, the thumbnail address built from
  owner, repository, branch and file name, and is not featured; the other fields are
  those of the descriptor. In a refresh the entry of such a matching repository is in the
  result.
\<close>

theorem defaults_when_config_fails:
  assumes "config_fails env cfg r"
  shows "\<exists>p. transformToPortfolio env cfg r s = (Inr p, sent [config_request cfg r] s)
     \<and> name p = extractPortfolioName cfg (repo_name r)
     \<and> slug p = toLowerCase (repo_name r)
     \<and> description p =
         (case repo_description r of
            None \<Rightarrow> ''No description available''
          | Some d \<Rightarrow> if d = [] then ''No description available'' else d)
     \<and> thumbnail p =
         Some (''https://raw.githubusercontent.com/'' @ githubOwner cfg @ ''/'' @ repo_name r
               @ ''/'' @ branch_of (default_branch r) @ ''/'' @ file_thumbnail (expectedFiles cfg))
     \<and> \<not> featured p \<and> isDynamic p
     \<and> repoUrl p = html_url r \<and> homepage p = repo_homepage r
     \<and> stars p = Some (stargazers_count r) \<and> forks p = Some (forks_count r)
     \<and> updatedAt p = Some (updated_at r) \<and> language p = repo_language r
     \<and> defaultBranch p = Some (branch_of (default_branch r))
     \<and> (cache_hit cfg now (cache s0) = None
          \<and> r \<in> set (filterPortfolioRepos cfg (listed_repos env cfg)) \<longrightarrow>
        (\<exists>xs. fst (getAllPortfolios env cfg now s0) = Inr xs \<and> p \<in> set xs))"
proof -
  let ?p = "entry_of env cfg r"
  have t: "transformToPortfolio env cfg r s = (Inr ?p, sent [config_request cfg r] s)"
    by (rule transformToPortfolio_eq)
  have e: "?p = build_entry cfg r (extractPortfolioName cfg (repo_name r)) Null"
    by (simp add: entry_of_def config_of_fails [OF assms])
  have fields: "name ?p = extractPortfolioName cfg (repo_name r)"
    "slug ?p = toLowerCase (repo_name r)"
    "description ?p =
         (case repo_description r of
            None \<Rightarrow> ''No description available''
          | Some d \<Rightarrow> if d = [] then ''No description available'' else d)"
    "thumbnail ?p =
         Some (''https://raw.githubusercontent.com/'' @ githubOwner cfg @ ''/'' @ repo_name r
               @ ''/'' @ branch_of (default_branch r) @ ''/'' @ file_thumbnail (expectedFiles cfg))"
    "\<not> featured ?p" "isDynamic ?p"
    "repoUrl ?p = html_url r" "homepage ?p = repo_homepage r"
    "stars ?p = Some (stargazers_count r)" "forks ?p = Some (forks_count r)"
    "updatedAt ?p = Some (updated_at r)" "language ?p = repo_language r"
    "defaultBranch ?p = Some (branch_of (default_branch r))"
    unfolding e
    by (simp_all add: build_entry_def prop_name_def prop_description_def prop_thumbnail_def
        prop_featured_def or_else_def thumbnail_url_def branch_of_def split: option.splits)
  have kept: "cache_hit cfg now (cache s0) = None
          \<and> r \<in> set (filterPortfolioRepos cfg (listed_repos env cfg)) \<longrightarrow>
        (\<exists>xs. fst (getAllPortfolios env cfg now s0) = Inr xs \<and> ?p \<in> set xs)"
    by (simp add: getAllPortfolios_miss fresh_def set_array_sort)
  show ?thesis
    by (rule exI [of _ ?p], intro conjI) (rule t fields kept)+
qed

theorem defaults_when_config_fails_witness:
  "config_fails offline PORTFOLIO_CONFIG (sample_repo ''portfolioBloxy'')
   \<and> (\<exists>p. fst (transformToPortfolio offline PORTFOLIO_CONFIG (sample_repo ''portfolioBloxy'')
               initial_state) = Inr p
        \<and> name p = ''Bloxy'' \<and> slug p = ''portfoliobloxy''
        \<and> description p = ''No description available'' \<and> \<not> featured p)"
proof -
  let ?r = "sample_repo ''portfolioBloxy''"
  have h: "config_fails offline PORTFOLIO_CONFIG ?r"
    by (simp add: config_fails_def offline_def)
  from defaults_when_config_fails [OF h, of initial_state 0 initial_state]
  obtain p where t: "transformToPortfolio offline PORTFOLIO_CONFIG ?r initial_state
        = (Inr p, sent [config_request PORTFOLIO_CONFIG ?r] initial_state)"
    and n: "name p = extractPortfolioName PORTFOLIO_CONFIG (repo_name ?r)"
    and sl: "slug p = toLowerCase (repo_name ?r)"
    and d: "description p =
         (case repo_description ?r of
            None \<Rightarrow> ''No description available''
          | Some d \<Rightarrow> if d = [] then ''No description available'' else d)"
    and f: "\<not> featured p"
    by blast
  have "extractPortfolioName PORTFOLIO_CONFIG (repo_name ?r) = ''Bloxy''"
    by code_simp
  moreover have "toLowerCase (repo_name ?r) = ''portfoliobloxy''"
    by code_simp
  moreover have "repo_description ?r = None"
    by (simp add: sample_repo_def)
  ultimately show ?thesis
    using h t n sl d f by simp
qed

subsection \<open>A transform that fails outright\<close>






subsection \<open>Lookup by slug\<close>

lemma truncate_with_content: "portfolio.truncate (with_content p rd tr) = p"
  by (simp add: with_content_def portfolio.defs)

lemma with_content_fields: "readme (with_content p rd tr) = rd" "tree (with_content p rd tr) = tr"
  by (simp_all add: with_content_def portfolio.defs portfolio_content.defs)

lemma fetchReadme_eq:
  "fetchReadme env cfg \<lparr> repo_name = sl, default_branch = b \<rparr> s =
     (value_or_null (respond env (raw_request cfg sl (file_readme (expectedFiles cfg)) (branch_of b))),
      sent [raw_request cfg sl (file_readme (expectedFiles cfg)) (branch_of b)] s)"
  by (simp add: fetchReadme_def githubRequest_raw or_else_branch value_or_null_def
      split: sum.splits)

lemma fetchRepoTree_eq:
  "fetchRepoTree env cfg \<lparr> repo_name = sl, default_branch = b \<rparr> s =
     (value_or_null (respond env (tree_request cfg sl (branch_of b))),
      sent [tree_request cfg sl (branch_of b)] s)"
  by (simp add: fetchRepoTree_def githubRequest_tree or_else_branch value_or_null_def
      split: sum.splits)

lemma getPortfolio_eq:
  assumes "getAllPortfolios env cfg now s = (Inr xs, s')"
  shows "getPortfolio env cfg now sl s = (Inr (find (\<lambda>p. slug p = sl) xs), s')"
  using assms by (simp add: getPortfolio_def)

lemma getPortfolioContent_static:
  assumes "getPortfolio env cfg now sl s = (Inr found, s1)"
    and "found = None \<or> (\<exists>p. found = Some p \<and> \<not> isDynamic p)"
  shows "getPortfolioContent env cfg now sl s = (Inr None, s1)"
  using assms by (auto simp add: getPortfolioContent_def)

lemma getPortfolioContent_dynamic:
  assumes "getPortfolio env cfg now sl s = (Inr (Some p), s1)" and "isDynamic p"
  shows "getPortfolioContent env cfg now sl s =
     (Inr (Some (with_content p
         (value_or_null (respond env (readme_request cfg sl p)))
         (value_or_null (respond env (content_tree_request cfg sl p))))),
      sent [readme_request cfg sl p, content_tree_request cfg sl p] s1)"
  using assms
  by (simp add: getPortfolioContent_def fetchReadme_eq fetchRepoTree_eq readme_request_def
      content_tree_request_def)

lemma slug_entry_of: "slug (entry_of env cfg r) = toLowerCase (repo_name r)"
  by (simp add: entry_of_def build_entry_def)

lemma content_request_fields:
  "rq_endpoint (readme_request cfg sl p) = ''raw''"
  "rq_path (readme_request cfg sl p) = Some (file_readme (expectedFiles cfg))"
  "rq_repo (readme_request cfg sl p) = Some sl"
  "rq_endpoint (content_tree_request cfg sl p) = ''tree''"
  "rq_repo (content_tree_request cfg sl p) = Some sl"
  by (simp_all add: readme_request_def content_tree_request_def raw_request_def
      tree_request_def)

text \<open>
  C9. \<open>getPortfolio(slug)\<close> does not fail. It returns the first entry of the sequence of
  \<open>getAllPortfolios\<close> whose slug is the argument, and \<open>undefined\<close> (here \<open>None\<close>) when no
  entry of the sequence has that slug.
\<close>

theorem getPortfolio_first_match:
  "\<exists>xs s'. getAllPortfolios env cfg now s = (Inr xs, s')
     \<and> (\<exists>found. getPortfolio env cfg now sl s = (Inr found, s')
          \<and> (case found of
                None \<Rightarrow> \<forall>p \<in> set xs. slug p \<noteq> sl
              | Some p \<Rightarrow> \<exists>i < length xs. xs ! i = p \<and> slug p = sl
                            \<and> (\<forall>j < i. slug (xs ! j) \<noteq> sl)))"
proof -
  from getAllPortfolios_total obtain xs s' where
    a: "getAllPortfolios env cfg now s = (Inr xs, s')" by blast
  let ?found = "find (\<lambda>p. slug p = sl) xs"
  have "case ?found of
          None \<Rightarrow> \<forall>p \<in> set xs. slug p \<noteq> sl
        | Some p \<Rightarrow> \<exists>i < length xs. xs ! i = p \<and> slug p = sl \<and> (\<forall>j < i. slug (xs ! j) \<noteq> sl)"
  proof (cases ?found)
    case None
    then have "\<forall>p \<in> set xs. slug p \<noteq> sl" by (simp add: find_None_iff)
    with None show ?thesis by simp
  next
    case (Some p)
    then have "\<exists>i < length xs. xs ! i = p \<and> slug p = sl \<and> (\<forall>j < i. slug (xs ! j) \<noteq> sl)"
      by (auto simp add: find_Some_iff)
    with Some show ?thesis by simp
  qed
  with a getPortfolio_eq [OF a, of sl] show ?thesis by blast
qed

theorem getPortfolio_first_match_witness:
  "(\<exists>xs s'. getAllPortfolios offline PORTFOLIO_CONFIG 1000 initial_state = (Inr xs, s')
     \<and> (\<exists>found. getPortfolio offline PORTFOLIO_CONFIG 1000 ''missing-slug'' initial_state
                   = (Inr found, s')
          \<and> (case found of
                None \<Rightarrow> \<forall>p \<in> set xs. slug p \<noteq> ''missing-slug''
              | Some p \<Rightarrow> \<exists>i < length xs. xs ! i = p \<and> slug p = ''missing-slug''
                            \<and> (\<forall>j < i. slug (xs ! j) \<noteq> ''missing-slug''))))
   \<and> fst (getPortfolio offline PORTFOLIO_CONFIG 1000 ''missing-slug'' initial_state) = Inr None
   \<and> fst (getPortfolio offline PORTFOLIO_CONFIG 1000 ''mason'' initial_state)
       = Inr (Some (static_entry ''Mason'' ''mason'' ''/portfolio/mason/''
                      ''Advanced Discord bot'' True))"
proof -
  have a: "fst (getPortfolio offline PORTFOLIO_CONFIG 1000 ''missing-slug'' initial_state)
      = Inr None"
    by code_simp
  have b: "fst (getPortfolio offline PORTFOLIO_CONFIG 1000 ''mason'' initial_state)
       = Inr (Some (static_entry ''Mason'' ''mason'' ''/portfolio/mason/''
                      ''Advanced Discord bot'' True))"
    by code_simp
  from getPortfolio_first_match [of offline PORTFOLIO_CONFIG 1000 initial_state "''missing-slug''"]
    a b
  show ?thesis by blast
qed

subsection \<open>The content of a portfolio\<close>

text \<open>
  C8. \<open>getPortfolioContent(slug)\<close> returns \<open>null\<close> (here \<open>None\<close>) when \<open>getPortfolio\<close> finds
  no entry or finds an entry that is not dynamic, also when the slug is that of a static
  entry of \<open>getAllPortfolios\<close>. Otherwise it returns the entry with the two fields
  \<open>readme\<close> and \<open>tree\<close> added; each is the answer to its request, or \<open>null\<close> when that
  request fails, and the call does not fail.
\<close>

theorem content_not_found_or_merged:
  "\<exists>found s1. getPortfolio env cfg now sl s = (Inr found, s1)
     \<and> (case found of
          None \<Rightarrow> getPortfolioContent env cfg now sl s = (Inr None, s1)
        | Some p \<Rightarrow>
            if \<not> isDynamic p then getPortfolioContent env cfg now sl s = (Inr None, s1)
            else \<exists>c s3. getPortfolioContent env cfg now sl s = (Inr (Some c), s3)
                   \<and> portfolio.truncate c = p
                   \<and> readme c = (case respond env (readme_request cfg sl p) of
                                  Inl e \<Rightarrow> Null | Inr v \<Rightarrow> v)
                   \<and> tree c = (case respond env (content_tree_request cfg sl p) of
                                  Inl e \<Rightarrow> Null | Inr v \<Rightarrow> v))"
proof -
  from getAllPortfolios_total obtain xs s1 where
    a: "getAllPortfolios env cfg now s = (Inr xs, s1)" by blast
  let ?found = "find (\<lambda>p. slug p = sl) xs"
  note g = getPortfolio_eq [OF a, of sl]
  have "case ?found of
          None \<Rightarrow> getPortfolioContent env cfg now sl s = (Inr None, s1)
        | Some p \<Rightarrow>
            if \<not> isDynamic p then getPortfolioContent env cfg now sl s = (Inr None, s1)
            else \<exists>c s3. getPortfolioContent env cfg now sl s = (Inr (Some c), s3)
                   \<and> portfolio.truncate c = p
                   \<and> readme c = (case respond env (readme_request cfg sl p) of
                                  Inl e \<Rightarrow> Null | Inr v \<Rightarrow> v)
                   \<and> tree c = (case respond env (content_tree_request cfg sl p) of
                                  Inl e \<Rightarrow> Null | Inr v \<Rightarrow> v)"
  proof (cases ?found)
    case None
    with g show ?thesis by (simp add: getPortfolioContent_static)
  next
    case (Some p)
    show ?thesis
    proof (cases "isDynamic p")
      case True
      with g Some show ?thesis
        by (simp add: getPortfolioContent_dynamic truncate_with_content with_content_fields
            value_or_null_def)
    next
      case False
      with g Some show ?thesis by (simp add: getPortfolioContent_static)
    qed
  qed
  with g show ?thesis by blast
qed

theorem content_not_found_or_merged_witness:
  "fst (getPortfolio offline PORTFOLIO_CONFIG 1000 ''bloxy'' initial_state)
      = Inr (Some (static_entry ''Bloxy'' ''bloxy'' ''/portfolio/bloxy/''
             ''Roblox community management bot'' True))
   \<and> fst (getPortfolioContent offline PORTFOLIO_CONFIG 1000 ''bloxy'' initial_state) = Inr None
   \<and> (\<exists>c. fst (getPortfolioContent account trizl_only 1000 ''portfoliobear'' initial_state)
             = Inr (Some c)
          \<and> portfolio.truncate c = entry_of account trizl_only (sample_repo ''portfolioBear'')
          \<and> readme c = Null \<and> tree c = Null)"
proof -
  let ?bloxy = "static_entry ''Bloxy'' ''bloxy'' ''/portfolio/bloxy/''
             ''Roblox community management bot'' True"
  let ?bear = "entry_of account trizl_only (sample_repo ''portfolioBear'')"
  have h: "fst (getPortfolio offline PORTFOLIO_CONFIG 1000 ''bloxy'' initial_state)
      = Inr (Some ?bloxy)"
    by code_simp
  have st: "\<not> isDynamic ?bloxy"
    by (simp add: static_entry_def)
  from content_not_found_or_merged [of offline PORTFOLIO_CONFIG 1000 "''bloxy''" initial_state]
  obtain found s1 where
    g: "getPortfolio offline PORTFOLIO_CONFIG 1000 ''bloxy'' initial_state = (Inr found, s1)"
    and c: "case found of
          None \<Rightarrow> getPortfolioContent offline PORTFOLIO_CONFIG 1000 ''bloxy'' initial_state
                    = (Inr None, s1)
        | Some p \<Rightarrow>
            if \<not> isDynamic p
            then getPortfolioContent offline PORTFOLIO_CONFIG 1000 ''bloxy'' initial_state
                   = (Inr None, s1)
            else \<exists>c s3. getPortfolioContent offline PORTFOLIO_CONFIG 1000 ''bloxy'' initial_state
                     = (Inr (Some c), s3)
                   \<and> portfolio.truncate c = p
                   \<and> readme c = (case respond offline (readme_request PORTFOLIO_CONFIG ''bloxy'' p)
                                  of Inl e \<Rightarrow> Null | Inr v \<Rightarrow> v)
                   \<and> tree c = (case respond offline
                                       (content_tree_request PORTFOLIO_CONFIG ''bloxy'' p)
                                  of Inl e \<Rightarrow> Null | Inr v \<Rightarrow> v)"
    by blast
  from g h have "found = Some ?bloxy" by simp
  with c st have a: "fst (getPortfolioContent offline PORTFOLIO_CONFIG 1000 ''bloxy''
      initial_state) = Inr None"
    by simp
  have h': "fst (getPortfolio account trizl_only 1000 ''portfoliobear'' initial_state)
      = Inr (Some ?bear)"
    by code_simp
  have dy: "isDynamic ?bear"
    by (simp add: entry_of_def build_entry_def)
  have r1: "respond account (readme_request trizl_only ''portfoliobear'' ?bear)
      = Inl RequestError"
    by (simp add: account_def content_request_fields)
  have r2: "respond account (content_tree_request trizl_only ''portfoliobear'' ?bear)
      = Inl RequestError"
    by (simp add: account_def content_request_fields)
  from content_not_found_or_merged [of account trizl_only 1000 "''portfoliobear''" initial_state]
  obtain found' s1' where
    g': "getPortfolio account trizl_only 1000 ''portfoliobear'' initial_state
           = (Inr found', s1')"
    and c': "case found' of
          None \<Rightarrow> getPortfolioContent account trizl_only 1000 ''portfoliobear'' initial_state
                    = (Inr None, s1')
        | Some p \<Rightarrow>
            if \<not> isDynamic p
            then getPortfolioContent account trizl_only 1000 ''portfoliobear'' initial_state
                   = (Inr None, s1')
            else \<exists>c s3. getPortfolioContent account trizl_only 1000 ''portfoliobear''
                         initial_state = (Inr (Some c), s3)
                   \<and> portfolio.truncate c = p
                   \<and> readme c = (case respond account
                                        (readme_request trizl_only ''portfoliobear'' p)
                                  of Inl e \<Rightarrow> Null | Inr v \<Rightarrow> v)
                   \<and> tree c = (case respond account
                                       (content_tree_request trizl_only ''portfoliobear'' p)
                                  of Inl e \<Rightarrow> Null | Inr v \<Rightarrow> v)"
    by blast
  from g' h' have "found' = Some ?bear" by simp
  with c' dy r1 r2 have b: "\<exists>c. fst (getPortfolioContent account trizl_only 1000
        ''portfoliobear'' initial_state) = Inr (Some c)
          \<and> portfolio.truncate c = ?bear \<and> readme c = Null \<and> tree c = Null"
    by auto
  from h a b show ?thesis by blast
qed

lemma map_fixed: "map f xs = xs \<Longrightarrow> x \<in> set xs \<Longrightarrow> f x = x"
  by (induction xs) auto

lemma toLowerCase_changes_upper:
  assumes "\<exists>c \<in> set n. isUpper c"
  shows "toLowerCase n \<noteq> n"
proof
  assume eq: "toLowerCase n = n"
  from assms obtain c where c: "c \<in> set n" "isUpper c" by blast
  from eq have "map toLowerCase_char n = n" by (simp add: toLowerCase_def)
  from map_fixed [OF this c(1)] have "toLowerCase_char c = c" .
  then have "(of_char (toLowerCase_char c) :: nat) = of_char c" by simp
  with c(2) show False unfolding of_char_toLower by (simp add: isUpper_def)
qed


text \<open>
  C10. When \<open>getPortfolioContent(slug)\<close> resolves a dynamic entry, it sends two requests,
  one for the README and one for the tree, and both name the repository by the slug
  itself. The slug of an entry built by \<open>transformToPortfolio\<close> is the repository name in
  lower case, so for a repository whose name has an upper-case letter the name in the two
  requests is not the name of the descriptor.
\<close>

theorem content_requests_use_slug:
  assumes "getPortfolio env cfg now sl s = (Inr (Some p), s1)" and "isDynamic p"
  shows "\<exists>rq1 rq2.
       issued (snd (getPortfolioContent env cfg now sl s)) = issued s1 @ [rq1, rq2]
     \<and> rq_endpoint rq1 = ''raw'' \<and> rq_path rq1 = Some (file_readme (expectedFiles cfg))
     \<and> rq_repo rq1 = Some sl
     \<and> rq_endpoint rq2 = ''tree'' \<and> rq_repo rq2 = Some sl
     \<and> (\<forall>env' cfg' r. sl = slug (entry_of env' cfg' r) \<longrightarrow>
           sl = toLowerCase (repo_name r)
           \<and> ((\<exists>c \<in> set (repo_name r). isUpper c) \<longrightarrow>
                rq_repo rq1 \<noteq> Some (repo_name r) \<and> rq_repo rq2 \<noteq> Some (repo_name r)))"
proof -
  let ?rq1 = "readme_request cfg sl p" and ?rq2 = "content_tree_request cfg sl p"
  have i: "issued (snd (getPortfolioContent env cfg now sl s)) = issued s1 @ [?rq1, ?rq2]"
    by (simp add: getPortfolioContent_dynamic [OF assms])
  note f = content_request_fields [of cfg sl p]
  have l: "\<forall>env' cfg' r. sl = slug (entry_of env' cfg' r) \<longrightarrow>
           sl = toLowerCase (repo_name r)
           \<and> ((\<exists>c \<in> set (repo_name r). isUpper c) \<longrightarrow>
                rq_repo ?rq1 \<noteq> Some (repo_name r) \<and> rq_repo ?rq2 \<noteq> Some (repo_name r))"
    using toLowerCase_changes_upper by (auto simp add: content_request_fields slug_entry_of)
  show ?thesis
    by (rule exI [of _ ?rq1], rule exI [of _ ?rq2], intro conjI) (rule i f l)+
qed

theorem content_requests_use_slug_witness:
  "getPortfolio account trizl_only 1000 ''portfoliobear'' initial_state
      = (Inr (Some (entry_of account trizl_only (sample_repo ''portfolioBear''))),
         snd (getAllPortfolios account trizl_only 1000 initial_state))
   \<and> isDynamic (entry_of account trizl_only (sample_repo ''portfolioBear''))
   \<and> (\<exists>c \<in> set ''portfolioBear''. isUpper c)
   \<and> (\<exists>rq1 rq2.
       issued (snd (getPortfolioContent account trizl_only 1000 ''portfoliobear'' initial_state))
         = issued (snd (getAllPortfolios account trizl_only 1000 initial_state)) @ [rq1, rq2]
     \<and> rq_repo rq1 = Some ''portfoliobear'' \<and> rq_repo rq2 = Some ''portfoliobear''
     \<and> rq_repo rq1 \<noteq> Some ''portfolioBear'' \<and> rq_repo rq2 \<noteq> Some ''portfolioBear'')"
proof -
  let ?r = "sample_repo ''portfolioBear''"
  let ?bear = "entry_of account trizl_only ?r"
  have h1: "getPortfolio account trizl_only 1000 ''portfoliobear'' initial_state
      = (Inr (Some ?bear), snd (getAllPortfolios account trizl_only 1000 initial_state))"
    by code_simp
  have h2: "isDynamic ?bear"
    by (simp add: entry_of_def build_entry_def)
  have n: "repo_name ?r = ''portfolioBear''"
    by (simp add: sample_repo_def)
  have u: "\<exists>c \<in> set ''portfolioBear''. isUpper c"
    by code_simp
  have sl: "''portfoliobear'' = slug ?bear"
    by code_simp
  from content_requests_use_slug [OF h1 h2] obtain rq1 rq2 where
    i: "issued (snd (getPortfolioContent account trizl_only 1000 ''portfoliobear'' initial_state))
         = issued (snd (getAllPortfolios account trizl_only 1000 initial_state)) @ [rq1, rq2]"
    and r: "rq_repo rq1 = Some ''portfoliobear''" "rq_repo rq2 = Some ''portfoliobear''"
    and a: "\<forall>env' cfg' r. ''portfoliobear'' = slug (entry_of env' cfg' r) \<longrightarrow>
           ''portfoliobear'' = toLowerCase (repo_name r)
           \<and> ((\<exists>c \<in> set (repo_name r). isUpper c) \<longrightarrow>
                rq_repo rq1 \<noteq> Some (repo_name r) \<and> rq_repo rq2 \<noteq> Some (repo_name r))"
    by blast
  from a sl have "(\<exists>c \<in> set (repo_name ?r). isUpper c) \<longrightarrow>
      rq_repo rq1 \<noteq> Some (repo_name ?r) \<and> rq_repo rq2 \<noteq> Some (repo_name ?r)"
    by blast
  with u have d: "rq_repo rq1 \<noteq> Some ''portfolioBear''" "rq_repo rq2 \<noteq> Some ''portfolioBear''"
    unfolding n by blast+
  from h1 h2 u i r d show ?thesis by blast
qed

end
